theory Spec2Isabelle
  imports Complex_Main
begin

section \<open>Python strings and the Unicode tables\<close>

text \<open>
  A Python \<^verbatim>\<open>str\<close> is a sequence of code points, so it is modelled as a list of
  natural numbers: \<^verbatim>\<open>len\<close> counts code points and the euro sign (U+20AC = 8364) is one
  element. ASCII literals of the source are written with \<open>asc\<close>.
\<close>

type_synonym pystr = "nat list"

definition asc :: "string \<Rightarrow> pystr" where
  "asc s = map of_char s"

text \<open>
  The character tables of the Python runtime that the program consults through
  \<^verbatim>\<open>re\<close> (\<^verbatim>\<open>\d\<close>, \<^verbatim>\<open>\s\<close>, \<^verbatim>\<open>\b\<close>), \<^verbatim>\<open>str.strip\<close>, \<^verbatim>\<open>str.upper\<close> and
  \<^verbatim>\<open>Decimal\<close>. They are not part of the repository, so every function that depends on
  them takes them as a parameter.
\<close>

record unicode =
  isdecimal :: "nat \<Rightarrow> bool"
  isspace :: "nat \<Rightarrow> bool"
  isalnum :: "nat \<Rightarrow> bool"
  upper :: "nat \<Rightarrow> pystr"
  digit_value :: "nat \<Rightarrow> nat"

text \<open>The tables restricted to ASCII, used to evaluate the program on concrete lines.\<close>

definition ascii_tables :: unicode where
  "ascii_tables =
     \<lparr> isdecimal = (\<lambda>c. 48 \<le> c \<and> c \<le> 57),
       isspace = (\<lambda>c. (9 \<le> c \<and> c \<le> 13) \<or> (28 \<le> c \<and> c \<le> 32)),
       isalnum = (\<lambda>c. (48 \<le> c \<and> c \<le> 57) \<or> (65 \<le> c \<and> c \<le> 90) \<or> (97 \<le> c \<and> c \<le> 122)),
       upper = (\<lambda>c. if 97 \<le> c \<and> c \<le> 122 then [c - 32] else [c]),
       digit_value = (\<lambda>c. c - 48) \<rparr>"

text \<open>\<^verbatim>\<open>s.startswith(p)\<close>, \<^verbatim>\<open>p in s\<close>, \<^verbatim>\<open>xs[a:b]\<close> for \<open>0 \<le> a\<close>, \<^verbatim>\<open>s.strip()\<close>.\<close>

definition startswith :: "'a list \<Rightarrow> 'a list \<Rightarrow> bool" where
  "startswith s p = (take (length p) s = p)"

fun contains :: "'a list \<Rightarrow> 'a list \<Rightarrow> bool" where
  "contains p [] = (p = [])"
| "contains p (c # s) = (startswith (c # s) p \<or> contains p s)"

definition py_slice :: "'a list \<Rightarrow> nat \<Rightarrow> nat \<Rightarrow> 'a list" where
  "py_slice xs a b = take (b - a) (drop a xs)"

definition strip :: "unicode \<Rightarrow> pystr \<Rightarrow> pystr" where
  "strip U s = rev (dropWhile (isspace U) (rev (dropWhile (isspace U) s)))"

text \<open>\<^verbatim>\<open>s.replace(old, new)\<close>: every non-overlapping occurrence, left to right.\<close>

function replace :: "pystr \<Rightarrow> pystr \<Rightarrow> pystr \<Rightarrow> pystr" where
  "replace old new s =
     (if old = [] then new @ concat (map (\<lambda>c. c # new) s)
      else if s = [] then []
      else if startswith s old then new @ replace old new (drop (length old) s)
      else hd s # replace old new (tl s))"
  by pat_completeness auto
termination
  by (relation "measure (\<lambda>(old, new, s). length s)") auto

section \<open>The regular expressions of the program\<close>

text \<open>
  The patterns of the source are sequences of single-character classes with the
  quantifiers \<^verbatim>\<open>?\<close>, \<^verbatim>\<open>+\<close> and \<^verbatim>\<open>{n}\<close>, the anchors \<^verbatim>\<open>^\<close>, \<^verbatim>\<open>$\<close> and
  \<^verbatim>\<open>\b\<close>, and one optional group. The matcher is the backtracking one of
  \<^verbatim>\<open>re\<close>: quantifiers are greedy and give characters back one at a time.
\<close>

datatype cls = Lit nat | Digit | Space | Range nat nat

type_synonym atom = "cls list"

datatype item = One atom | Plus atom | Opt "item list" | WordB | Bol | Eol

type_synonym regex = "item list"

fun cls_ok :: "unicode \<Rightarrow> cls \<Rightarrow> nat \<Rightarrow> bool" where
  "cls_ok U (Lit d) c = (c = d)"
| "cls_ok U Digit c = isdecimal U c"
| "cls_ok U Space c = isspace U c"
| "cls_ok U (Range lo hi) c = (lo \<le> c \<and> c \<le> hi)"

definition atom_ok :: "unicode \<Rightarrow> atom \<Rightarrow> nat \<Rightarrow> bool" where
  "atom_ok U a c = list_ex (\<lambda>k. cls_ok U k c) a"

definition isword :: "unicode \<Rightarrow> nat \<Rightarrow> bool" where
  "isword U c = (isalnum U c \<or> c = 95)"

text \<open>
  \<^verbatim>\<open>\b\<close> holds between the previous character and the next one when exactly one of
  them is a word character; the two ends of the string count as non-word.
\<close>

definition at_boundary :: "unicode \<Rightarrow> nat option \<Rightarrow> pystr \<Rightarrow> bool" where
  "at_boundary U prev s =
     ((case prev of None \<Rightarrow> False | Some p \<Rightarrow> isword U p)
      \<noteq> (case s of [] \<Rightarrow> False | c # _ \<Rightarrow> isword U c))"

primrec isize :: "item \<Rightarrow> nat" where
  "isize (One a) = 1"
| "isize (Plus a) = 1"
| "isize (Opt g) = Suc (sum_list (map isize g))"
| "isize WordB = 1"
| "isize Bol = 1"
| "isize Eol = 1"

text \<open>\<open>plus_try f n\<close> tries the run lengths \<open>n, n - 1, \<dots>, 1\<close> of a greedy \<^verbatim>\<open>+\<close>.\<close>

fun plus_try :: "(nat \<Rightarrow> nat option) \<Rightarrow> nat \<Rightarrow> nat option" where
  "plus_try f 0 = None"
| "plus_try f (Suc k) = (case f (Suc k) of Some e \<Rightarrow> Some e | None \<Rightarrow> plus_try f k)"

text \<open>
  \<open>match_here U re prev s\<close> matches \<open>re\<close> at the start of \<open>s\<close>, where \<open>prev\<close> is the
  character before \<open>s\<close> in the whole string (\<open>None\<close> at position 0), and returns the
  number of characters of the first match in backtracking order.
\<close>

function match_here :: "unicode \<Rightarrow> regex \<Rightarrow> nat option \<Rightarrow> pystr \<Rightarrow> nat option" where
  "match_here U [] prev s = Some 0"
| "match_here U (One a # r) prev s =
     (case s of [] \<Rightarrow> None
      | c # s' \<Rightarrow> if atom_ok U a c then map_option Suc (match_here U r (Some c) s') else None)"
| "match_here U (Plus a # r) prev s =
     plus_try (\<lambda>k. map_option ((+) k) (match_here U r (Some (s ! (k - 1))) (drop k s)))
       (length (takeWhile (atom_ok U a) s))"
| "match_here U (Opt g # r) prev s =
     (case match_here U (g @ r) prev s of Some n \<Rightarrow> Some n | None \<Rightarrow> match_here U r prev s)"
| "match_here U (WordB # r) prev s =
     (if at_boundary U prev s then match_here U r prev s else None)"
| "match_here U (Bol # r) prev s =
     (if prev = None then match_here U r prev s else None)"
| "match_here U (Eol # r) prev s =
     (if s = [] \<or> s = [10] then match_here U r prev s else None)"
  by pat_completeness auto
termination
  by (relation "measure (\<lambda>(U, re, prev, s). sum_list (map isize re))") auto

text \<open>\<open>search\<close>: the leftmost position at or after \<open>i\<close> where the pattern matches.\<close>

fun search :: "unicode \<Rightarrow> regex \<Rightarrow> nat option \<Rightarrow> pystr \<Rightarrow> nat \<Rightarrow> (nat \<times> nat) option" where
  "search U re prev [] i = map_option (\<lambda>n. (i, i + n)) (match_here U re prev [])"
| "search U re prev (c # s) i =
     (case match_here U re prev (c # s) of
        Some n \<Rightarrow> Some (i, i + n)
      | None \<Rightarrow> search U re (Some c) s (Suc i))"

definition prev_at :: "pystr \<Rightarrow> nat \<Rightarrow> nat option" where
  "prev_at txt pos = (if pos = 0 then None else Some (txt ! (pos - 1)))"

text \<open>
  \<^verbatim>\<open>pat.finditer(txt)\<close>: the spans \<open>(start, end)\<close> of the successive matches; the scan
  resumes at the end of the previous match (one further after an empty match).
\<close>

function finditer_from :: "unicode \<Rightarrow> regex \<Rightarrow> pystr \<Rightarrow> nat \<Rightarrow> (nat \<times> nat) list" where
  "finditer_from U re txt pos =
     (if length txt < pos then []
      else case search U re (prev_at txt pos) (drop pos txt) pos of
             None \<Rightarrow> []
           | Some (a, b) \<Rightarrow> (a, b) # finditer_from U re txt (if b = a then Suc b else b))"
  by pat_completeness auto
termination
proof (relation "measure (\<lambda>(U, re, txt, pos). Suc (length txt) - pos)")
  show "wf (measure (\<lambda>(U, re, txt, pos). Suc (length txt) - pos))"
    by simp
next
  fix U :: unicode and re :: regex and t :: pystr and pos :: nat and x2 :: "nat \<times> nat" and a b :: nat
  assume le: "\<not> length t < pos"
    and found: "search U re (prev_at t pos) (drop pos t) pos = Some x2"
    and x2: "(a, b) = x2"
  have bounds: "search U re p s i = Some (a', b') \<Longrightarrow> i \<le> a' \<and> a' \<le> b'" for p s i a' b'
    by (induction s arbitrary: p i) (fastforce split: option.splits)+
  from found x2 bounds [of "prev_at t pos" "drop pos t" pos a b]
  have "pos \<le> a \<and> a \<le> b" by simp
  with le show "((U, re, t, if b = a then Suc b else b), (U, re, t, pos))
      \<in> measure (\<lambda>(U, re, txt, pos). Suc (length txt) - pos)"
    by auto
qed

definition finditer :: "unicode \<Rightarrow> regex \<Rightarrow> pystr \<Rightarrow> (nat \<times> nat) list" where
  "finditer U re txt = finditer_from U re txt 0"

text \<open>\<^verbatim>\<open>re.match(pat, s)\<close> tries position 0 only; \<^verbatim>\<open>re.sub(pat, repl, s)\<close> rebuilds
  the string around the spans of \<^verbatim>\<open>finditer\<close> (\<open>repl\<close> is a literal here).\<close>

definition re_match :: "unicode \<Rightarrow> regex \<Rightarrow> pystr \<Rightarrow> nat option" where
  "re_match U re s = match_here U re None s"

fun sub_spans :: "pystr \<Rightarrow> pystr \<Rightarrow> nat \<Rightarrow> (nat \<times> nat) list \<Rightarrow> pystr" where
  "sub_spans repl txt pos [] = drop pos txt"
| "sub_spans repl txt pos ((a, b) # ms) = py_slice txt pos a @ repl @ sub_spans repl txt b ms"

definition re_sub :: "unicode \<Rightarrow> regex \<Rightarrow> pystr \<Rightarrow> pystr \<Rightarrow> pystr" where
  "re_sub U re repl txt = sub_spans repl txt 0 (finditer U re txt)"

definition rep :: "nat \<Rightarrow> atom \<Rightarrow> regex" where
  "rep n a = replicate n (One a)"

section \<open>Module-level helpers: \<^verbatim>\<open>now_nl_date\<close>, \<^verbatim>\<open>parse_money\<close>\<close>

datatype error = ValueError string | StatisticsError | IndexError | AttributeError | TTFError

definition bindE :: "error + 'a \<Rightarrow> ('a \<Rightarrow> error + 'b) \<Rightarrow> error + 'b" where
  "bindE m f = (case m of Inl e \<Rightarrow> Inl e | Inr x \<Rightarrow> f x)"

text \<open>Decimal digits of a natural number; \<open>digits2\<close> is \<^verbatim>\<open>%02d\<close> for a number below 100.\<close>

function digits :: "nat \<Rightarrow> pystr" where
  "digits n = (if n < 10 then [48 + n] else digits (n div 10) @ [48 + n mod 10])"
  by pat_completeness auto
termination
  by (relation "measure id") auto

definition digits2 :: "nat \<Rightarrow> pystr" where
  "digits2 n = [48 + n div 10, 48 + n mod 10]"

text \<open>
  The wall clock read in the zone Europe/Amsterdam is an input of the program:
  \<^verbatim>\<open>datetime.now(TZ_NL)\<close>. \<^verbatim>\<open>strftime("%d-%m-%Y")\<close> prints day and month with two
  digits and the year in full.
\<close>

record date =
  day :: nat
  month :: nat
  year :: nat

definition now_nl_date :: "date \<Rightarrow> pystr" where
  "now_nl_date now = digits2 (day now) @ [45] @ digits2 (month now) @ [45] @ digits (year now)"

definition py_upper :: "unicode \<Rightarrow> pystr \<Rightarrow> pystr" where
  "py_upper U s = concat (map (upper U) s)"

text \<open>
  \<^verbatim>\<open>Decimal(t)\<close> on the strings that pass the check of \<^verbatim>\<open>parse_money\<close>: an optional
  sign, an integer part and an optional fraction; surrounding whitespace is ignored.
  The value is exact.
\<close>

definition nat_of_digits :: "unicode \<Rightarrow> pystr \<Rightarrow> nat" where
  "nat_of_digits U ds = foldl (\<lambda>acc c. 10 * acc + digit_value U c) 0 ds"

definition Decimal :: "unicode \<Rightarrow> pystr \<Rightarrow> real" where
  "Decimal U t =
     (let t1 = strip U t;
          neg = startswith t1 [45];
          body = (if neg then tl t1 else t1);
          ip = takeWhile (\<lambda>c. c \<noteq> 46) body;
          fp = drop 1 (dropWhile (\<lambda>c. c \<noteq> 46) body);
          v = of_nat (nat_of_digits U ip) + of_nat (nat_of_digits U fp) / 10 ^ length fp
      in if neg then - v else v)"

text \<open>\<^verbatim>\<open>^-?\d+(\.\d+)?$\<close>\<close>

definition money_re :: regex where
  "money_re = [Bol, Opt [One [Lit 45]], Plus [Digit], Opt [One [Lit 46], Plus [Digit]], Eol]"

definition parse_money :: "unicode \<Rightarrow> pystr \<Rightarrow> error + real" where
  "parse_money U txt =
     (let t = py_upper U (strip U txt);
          t = replace [32] [] (replace (asc ''EUR'') [] (replace [8364] [] t));
          t = (if 44 \<in> set t \<and> 46 \<in> set t then replace [44] [46] (replace [46] [] t)
               else if 44 \<in> set t then replace [44] [46] t
               else t)
      in if re_match U money_re t = None then Inl (ValueError ''bad money'')
         else Inr (Decimal U t))"

section \<open>The local helpers of \<^verbatim>\<open>notary_replace_amount_pdf_purepy\<close>\<close>

text \<open>\<^verbatim>\<open>_strip_subset\<close>: \<^verbatim>\<open>re.sub(r"^[A-Z]{6}\+", "", fn)\<close>\<close>

definition subset_re :: regex where
  "subset_re = Bol # rep 6 [Range 65 90] @ [One [Lit 43]]"

definition strip_subset :: "unicode \<Rightarrow> pystr \<Rightarrow> pystr" where
  "strip_subset U fn = re_sub U subset_re [] fn"

definition family_and_style :: "pystr \<Rightarrow> pystr \<times> pystr" where
  "family_and_style fontname = (asc ''TimesNewRomanPS'', asc ''regular'')"

text \<open>
  \<^verbatim>\<open>_ensure_font\<close> asks the font registry of the drawing library whether
  \<^verbatim>\<open>TimesNewRomanPS\<close> is registered; the answer is the parameter \<open>registered\<close>.
\<close>

definition ensure_font :: "bool \<Rightarrow> pystr \<Rightarrow> pystr \<Rightarrow> pystr" where
  "ensure_font registered family style =
     (if registered then asc ''TimesNewRomanPS'' else asc ''Times-Roman'')"

text \<open>
  \<^verbatim>\<open>f"{value:,.2f}"\<close>: the value rounded to two decimals (ties to even), the integer
  part grouped in threes by commas. The float is taken as the exact real number it
  stands for.
\<close>

definition round_half_even :: "real \<Rightarrow> nat" where
  "round_half_even x =
     (let q = nat \<lfloor>x\<rfloor>; f = x - of_nat q
      in if f < 1 / 2 then q else if 1 / 2 < f then q + 1 else if even q then q else q + 1)"

function group3 :: "pystr \<Rightarrow> pystr" where
  "group3 ds =
     (if length ds \<le> 3 then ds
      else group3 (take (length ds - 3) ds) @ 44 # drop (length ds - 3) ds)"
  by pat_completeness auto
termination
  by (relation "measure length") auto

definition format_comma_2f :: "real \<Rightarrow> pystr" where
  "format_comma_2f v =
     (let c = round_half_even (\<bar>v\<bar> * 100)
      in (if v < 0 then [45] else []) @ group3 (digits (c div 100)) @ [46] @ digits2 (c mod 100))"

definition format_like :: "unicode \<Rightarrow> pystr \<Rightarrow> real \<Rightarrow> pystr" where
  "format_like U src v =
     (let s = strip U src;
          eur_left = startswith s [8364];
          n_str = replace [88] [46] (replace [46] [44] (replace [44] [88] (format_comma_2f v)))
      in if eur_left then [8364, 32] @ n_str else n_str @ [32, 8364])"

text \<open>The four patterns: \<^verbatim>\<open>money_pats\<close>, \<^verbatim>\<open>date_pat\<close>, \<^verbatim>\<open>date_pat_dots\<close>.\<close>

definition money_left :: regex where
  "money_left = [One [Lit 8364], Opt [One [Space]], Plus [Digit, Lit 46, Space], One [Lit 44]] @ rep 2 [Digit]"

definition money_right :: regex where
  "money_right = [Plus [Digit, Lit 46, Space], One [Lit 44]] @ rep 2 [Digit] @ [Opt [One [Space]], One [Lit 8364]]"

definition money_pats :: "regex list" where
  "money_pats = [money_left, money_right]"

definition date_pat :: regex where
  "date_pat = [WordB] @ rep 2 [Digit] @ [One [Lit 45]] @ rep 2 [Digit] @ [One [Lit 45]] @ rep 4 [Digit] @ [WordB]"

definition date_pat_dots :: regex where
  "date_pat_dots = [WordB] @ rep 2 [Digit] @ [One [Lit 46]] @ rep 2 [Digit] @ [One [Lit 46]] @ rep 4 [Digit] @ [WordB]"

section \<open>The input document\<close>

text \<open>
  The file is read twice: the layout analysis (\<^verbatim>\<open>extract_pages\<close>) yields one layout
  per page, a tree of boxes, lines and characters, and the page reader
  (\<^verbatim>\<open>PdfReader(...).pages\<close>) yields the pages with their media box and content. A float
  is taken as the exact real number it stands for.
\<close>

record ltchar =
  get_text :: pystr
  x0 :: real
  y0 :: real
  x1 :: real
  y1 :: real
  fontname :: pystr
  fsize :: real

datatype lt_item = LTChar ltchar | LTAnno pystr

datatype lt_line = LTTextLine "lt_item list" | LTOtherLine

datatype lt_box = LTTextContainer "lt_line list" | LTOtherBox

type_synonym lt_page = "lt_box list"

datatype color = White | Black

datatype draw_op =
    SetFillColor color
  | SetStrokeColor color
  | Rect real real real real nat nat
  | DrawText real real pystr real pystr

datatype content_stream = Original nat | Overlay "draw_op list"

record page =
  width :: real
  height :: real
  contents :: "content_stream list"

record pdf =
  layouts :: "lt_page list"
  pages :: "page list"

text \<open>
  What the program reads from its environment: the Unicode tables, the variable
  \<^verbatim>\<open>NOTARY_OVERLAY_PCT\<close> (unset, a string \<^verbatim>\<open>float\<close> accepts, or one it rejects), the
  font file \<^verbatim>\<open>fonts/TimesNewRomanPSMT.ttf\<close>, whether the font registry already holds
  \<^verbatim>\<open>TimesNewRomanPS\<close>, and the clock.
\<close>

datatype env_var = Unset | IsFloat real | NotFloat

datatype font_file = NoFile | ValidFont | BrokenFont

record world =
  tables :: unicode
  NOTARY_OVERLAY_PCT :: env_var
  ttf :: font_file
  in_registry :: bool
  clock :: date

section \<open>Hits\<close>

datatype kind = Amount | Date

record hit =
  hit_kind :: kind
  hit_x0 :: real
  hit_y0 :: real
  hit_x1 :: real
  hit_y1 :: real
  hit_size :: real
  hit_family :: pystr
  hit_style :: pystr
  hit_src :: pystr
  hit_k :: real

text \<open>\<^verbatim>\<open>min\<close>, \<^verbatim>\<open>max\<close> and \<^verbatim>\<open>statistics.median\<close> raise on an empty sequence, and so does
  \<^verbatim>\<open>seg[0]\<close>.\<close>

definition py_min :: "real list \<Rightarrow> error + real" where
  "py_min xs = (case xs of [] \<Rightarrow> Inl (ValueError ''min() arg is an empty sequence'')
                | x # r \<Rightarrow> Inr (fold min r x))"

definition py_max :: "real list \<Rightarrow> error + real" where
  "py_max xs = (case xs of [] \<Rightarrow> Inl (ValueError ''max() arg is an empty sequence'')
                | x # r \<Rightarrow> Inr (fold max r x))"

definition median :: "real list \<Rightarrow> error + real" where
  "median xs =
     (let data = sort xs; n = length data
      in if n = 0 then Inl StatisticsError
         else if n mod 2 = 1 then Inr (data ! (n div 2))
         else Inr ((data ! (n div 2 - 1) + data ! (n div 2)) / 2))"

definition first :: "'a list \<Rightarrow> error + 'a" where
  "first xs = (case xs of [] \<Rightarrow> Inl IndexError | x # _ \<Rightarrow> Inr x)"

text \<open>\<^verbatim>\<open>float(os.getenv("NOTARY_OVERLAY_PCT", "0.265"))\<close>\<close>

definition overlay_pct :: "env_var \<Rightarrow> error + real" where
  "overlay_pct v =
     (case v of Unset \<Rightarrow> Inr 0.265
      | IsFloat r \<Rightarrow> Inr r
      | NotFloat \<Rightarrow> Inl (ValueError ''could not convert string to float''))"

text \<open>
  The body shared by the amount loop (lines 903 to 919) and the date loop (lines 924
  to 940) of the source: the span of the match cuts a slice out of the line's
  characters; an empty slice is skipped (\<open>None\<close>), otherwise the hit is built.
\<close>

definition make_hit :: "kind \<Rightarrow> world \<Rightarrow> ltchar list \<Rightarrow> pystr \<Rightarrow> nat \<times> nat \<Rightarrow> error + hit option" where
  "make_hit kd W chars txt m =
     (let seg = py_slice chars (fst m) (snd m)
      in if seg = [] then Inr None
         else
           bindE (py_min (map x0 seg)) (\<lambda>mx0.
           bindE (py_max (map x1 seg)) (\<lambda>mx1.
           bindE (py_min (map y0 seg)) (\<lambda>my0.
           bindE (py_max (map y1 seg)) (\<lambda>my1.
           bindE (median (map fsize seg)) (\<lambda>base_size.
           bindE (first seg) (\<lambda>c0.
           bindE (overlay_pct (NOTARY_OVERLAY_PCT W)) (\<lambda>pct.
             Inr (Some \<lparr> hit_kind = kd,
                         hit_x0 = mx0, hit_y0 = my0, hit_x1 = mx1, hit_y1 = my1,
                         hit_size = base_size,
                         hit_family = fst (family_and_style (fontname c0)),
                         hit_style = snd (family_and_style (fontname c0)),
                         hit_src = py_slice txt (fst m) (snd m),
                         hit_k = pct \<rparr>)))))))))"

text \<open>The year filter of the amount loop (line 901).\<close>

definition suppressed :: "pystr \<Rightarrow> bool" where
  "suppressed g = (contains (asc ''202'') g \<and> length g < 12)"

definition amount_body :: "world \<Rightarrow> ltchar list \<Rightarrow> pystr \<Rightarrow> nat \<times> nat \<Rightarrow> error + hit option" where
  "amount_body W chars txt m =
     (if suppressed (py_slice txt (fst m) (snd m)) then Inr None
      else make_hit Amount W chars txt m)"

definition date_body :: "world \<Rightarrow> ltchar list \<Rightarrow> pystr \<Rightarrow> nat \<times> nat \<Rightarrow> error + hit option" where
  "date_body W chars txt m = make_hit Date W chars txt m"

text \<open>A \<^verbatim>\<open>for\<close> loop over a list that threads a state and stops at the first exception.\<close>

fun for_each :: "('s \<Rightarrow> 'a \<Rightarrow> error + 's) \<Rightarrow> 's \<Rightarrow> 'a list \<Rightarrow> error + 's" where
  "for_each body s [] = Inr s"
| "for_each body s (x # xs) =
     (case body s x of Inl e \<Rightarrow> Inl e | Inr s' \<Rightarrow> for_each body s' xs)"

text \<open>One iteration over a match: \<^verbatim>\<open>continue\<close> or \<^verbatim>\<open>page_hits.append(...)\<close>.\<close>

definition on_match :: "(nat \<times> nat \<Rightarrow> error + hit option) \<Rightarrow> hit list \<Rightarrow> nat \<times> nat \<Rightarrow> error + hit list" where
  "on_match body page_hits m =
     (case body m of Inl e \<Rightarrow> Inl e
      | Inr None \<Rightarrow> Inr page_hits
      | Inr (Some h) \<Rightarrow> Inr (page_hits @ [h]))"

definition for_pats :: "unicode \<Rightarrow> (nat \<times> nat \<Rightarrow> error + hit option) \<Rightarrow> pystr \<Rightarrow> hit list \<Rightarrow> regex list \<Rightarrow> error + hit list" where
  "for_pats U body txt page_hits pats =
     for_each (\<lambda>hits pat. for_each (on_match body) hits (finditer U pat txt)) page_hits pats"

definition line_chars :: "lt_item list \<Rightarrow> ltchar list" where
  "line_chars items = concat (map (\<lambda>it. case it of LTChar c \<Rightarrow> [c] | LTAnno _ \<Rightarrow> []) items)"

definition on_line :: "world \<Rightarrow> hit list \<Rightarrow> lt_line \<Rightarrow> error + hit list" where
  "on_line W page_hits line =
     (case line of LTOtherLine \<Rightarrow> Inr page_hits
      | LTTextLine items \<Rightarrow>
          (let chars = line_chars items
           in if chars = [] then Inr page_hits
              else
                (let txt = concat (map get_text chars)
                 in bindE (for_pats (tables W) (amount_body W chars txt) txt page_hits money_pats) (\<lambda>hits.
                    for_pats (tables W) (date_body W chars txt) txt hits [date_pat, date_pat_dots]))))"

definition on_box :: "world \<Rightarrow> hit list \<Rightarrow> lt_box \<Rightarrow> error + hit list" where
  "on_box W page_hits box =
     (case box of LTOtherBox \<Rightarrow> Inr page_hits
      | LTTextContainer lines \<Rightarrow> for_each (on_line W) page_hits lines)"

definition page_hits_of :: "world \<Rightarrow> lt_page \<Rightarrow> error + hit list" where
  "page_hits_of W layout = for_each (on_box W) [] layout"

text \<open>The first loop of the function (lines 887 to 943): \<^verbatim>\<open>matches_by_page\<close>.\<close>

fun extract_hits :: "world \<Rightarrow> (nat \<rightharpoonup> hit list) \<Rightarrow> nat \<Rightarrow> lt_page list \<Rightarrow> error + (nat \<rightharpoonup> hit list)" where
  "extract_hits W matches_by_page pageno [] = Inr matches_by_page"
| "extract_hits W matches_by_page pageno (layout # rest) =
     (case page_hits_of W layout of Inl e \<Rightarrow> Inl e
      | Inr page_hits \<Rightarrow>
          extract_hits W
            (if page_hits \<noteq> [] then matches_by_page(pageno \<mapsto> page_hits) else matches_by_page)
            (Suc pageno) rest)"

section \<open>The overlay\<close>

record overlay_page =
  o_width :: real
  o_height :: real
  o_ops :: "draw_op list"

record canvas =
  pagesize :: "real \<times> real"
  page_code :: "draw_op list"
  doc_pages :: "overlay_page list"

definition new_canvas :: "real \<times> real \<Rightarrow> canvas" where
  "new_canvas sz = \<lparr> pagesize = sz, page_code = [], doc_pages = [] \<rparr>"

definition showPage :: "canvas \<Rightarrow> canvas" where
  "showPage c =
     c\<lparr> doc_pages := doc_pages c @
           [\<lparr> o_width = fst (pagesize c), o_height = snd (pagesize c), o_ops = page_code c \<rparr>],
        page_code := [] \<rparr>"

definition save :: "canvas \<Rightarrow> overlay_page list" where
  "save c = doc_pages (if page_code c \<noteq> [] then showPage c else c)"

text \<open>The body of the loop over the hits of a page (lines 956 to 979).\<close>

definition new_text :: "unicode \<Rightarrow> real \<Rightarrow> pystr \<Rightarrow> hit \<Rightarrow> pystr" where
  "new_text U new_amount_float current_date h =
     (if hit_kind h = Amount then format_like U (hit_src h) new_amount_float else current_date)"

definition pad :: "hit \<Rightarrow> real" where
  "pad h = max 1.2 (0.18 * hit_size h)"

definition draw_hit :: "bool \<Rightarrow> unicode \<Rightarrow> real \<Rightarrow> pystr \<Rightarrow> hit \<Rightarrow> draw_op list" where
  "draw_hit registered U new_amount_float current_date h =
     (let rl_font = ensure_font registered (hit_family h) (hit_style h);
          rect_w_min = (hit_x1 h - hit_x0 h) + 2 * pad h;
          rect_h = (hit_y1 h - hit_y0 h) + 2 * pad h
      in [SetFillColor White, SetStrokeColor White,
          Rect (hit_x0 h - pad h) (hit_y0 h - pad h) rect_w_min rect_h 1 0,
          SetFillColor Black, SetStrokeColor Black,
          DrawText (hit_x0 h) (hit_y0 h + (hit_y1 h - hit_y0 h) * hit_k h) rl_font (hit_size h)
            (new_text U new_amount_float current_date h)])"

definition draw_on :: "bool \<Rightarrow> unicode \<Rightarrow> real \<Rightarrow> pystr \<Rightarrow> canvas \<Rightarrow> hit \<Rightarrow> canvas" where
  "draw_on registered U new_amount_float current_date c h =
     c\<lparr> page_code := page_code c @ draw_hit registered U new_amount_float current_date h \<rparr>"

definition hits_on :: "(nat \<rightharpoonup> hit list) \<Rightarrow> nat \<Rightarrow> hit list" where
  "hits_on matches_by_page i = (case matches_by_page i of None \<Rightarrow> [] | Some hs \<Rightarrow> hs)"

text \<open>
  The second loop (lines 949 to 980). The canvas is created when \<open>i = 0\<close>; a drawing
  call on \<^verbatim>\<open>None\<close> is an \<^verbatim>\<open>AttributeError\<close>.
\<close>

fun render_pages :: "bool \<Rightarrow> unicode \<Rightarrow> real \<Rightarrow> pystr \<Rightarrow> (nat \<rightharpoonup> hit list) \<Rightarrow> canvas option \<Rightarrow> nat \<Rightarrow> page list \<Rightarrow> error + canvas option" where
  "render_pages registered U amt cur mbp canv i [] = Inr canv"
| "render_pages registered U amt cur mbp canv i (p # rest) =
     (let w = width p; h = height p;
          canv1 = (if i = 0 then Some (new_canvas (w, h)) else canv)
      in case canv1 of None \<Rightarrow> Inl AttributeError
         | Some c \<Rightarrow>
             render_pages registered U amt cur mbp
               (Some (showPage (foldl (draw_on registered U amt cur) c (hits_on mbp i))))
               (Suc i) rest)"

definition render_overlay :: "bool \<Rightarrow> unicode \<Rightarrow> real \<Rightarrow> pystr \<Rightarrow> (nat \<rightharpoonup> hit list) \<Rightarrow> page list \<Rightarrow> error + overlay_page list" where
  "render_overlay registered U amt cur mbp ps =
     bindE (render_pages registered U amt cur mbp None 0 ps) (\<lambda>canv.
       case canv of None \<Rightarrow> Inl AttributeError | Some c \<Rightarrow> Inr (save c))"

section \<open>Compositing\<close>

text \<open>\<^verbatim>\<open>page.merge_page(over)\<close> adds the content of the overlay page on top of the page's
  own and leaves the media box as it is.\<close>

definition merge_page :: "page \<Rightarrow> overlay_page \<Rightarrow> page" where
  "merge_page p ov = p\<lparr> contents := contents p @ [Overlay (o_ops ov)] \<rparr>"

text \<open>The third loop (lines 987 to 990); \<open>writer\<close> is the list of pages added so far.\<close>

fun compose_pages :: "overlay_page list \<Rightarrow> page list \<Rightarrow> nat \<Rightarrow> page list \<Rightarrow> page list" where
  "compose_pages over_pages writer i [] = writer"
| "compose_pages over_pages writer i (p # rest) =
     compose_pages over_pages
       (writer @ [if i < length over_pages then merge_page p (over_pages ! i) else p])
       (Suc i) rest"

section \<open>\<^verbatim>\<open>notary_replace_amount_pdf_purepy\<close>\<close>

text \<open>Lines 845 and 846: the font is registered when its file exists.\<close>

definition register_font :: "world \<Rightarrow> error + bool" where
  "register_font W =
     (case ttf W of NoFile \<Rightarrow> Inr (in_registry W)
      | ValidFont \<Rightarrow> Inr True
      | BrokenFont \<Rightarrow> Inl TTFError)"

definition notary_replace_amount_pdf_purepy :: "world \<Rightarrow> pdf \<Rightarrow> real \<Rightarrow> error + page list" where
  "notary_replace_amount_pdf_purepy W base_pdf new_amount_float =
     bindE (register_font W) (\<lambda>registered.
       let current_date = now_nl_date (clock W)
       in bindE (extract_hits W Map.empty 0 (layouts base_pdf)) (\<lambda>matches_by_page.
          bindE (render_overlay registered (tables W) new_amount_float current_date
                   matches_by_page (pages base_pdf)) (\<lambda>over_pages.
            Inr (compose_pages over_pages [] 0 (pages base_pdf)))))"

section \<open>Auxiliary notions for the statements\<close>

text \<open>The only exception the extraction loops can raise: a malformed
  \<^verbatim>\<open>NOTARY_OVERLAY_PCT\<close>.\<close>

definition float_error :: "world \<Rightarrow> error \<Rightarrow> bool" where
  "float_error W e = (e = ValueError ''could not convert string to float'' \<and> NOTARY_OVERLAY_PCT W = NotFloat)"


text \<open>A line of text set in a fixed pitch: character \<open>i\<close> occupies the box from
  \<open>(i, 0)\<close> to \<open>(i + 1, 10)\<close>, one code point per glyph.\<close>

definition mono_chars :: "pystr \<Rightarrow> ltchar list" where
  "mono_chars s =
     map (\<lambda>i. \<lparr> get_text = [s ! i], x0 = of_nat i, y0 = 0, x1 = of_nat i + 1, y1 = 10,
                 fontname = asc ''ABCDEF+Times'', fsize = 10 \<rparr>) [0..<length s]"

definition mono_line :: "pystr \<Rightarrow> lt_line" where
  "mono_line s = LTTextLine (map LTChar (mono_chars s))"

definition world0 :: world where
  "world0 = \<lparr> tables = ascii_tables, NOTARY_OVERLAY_PCT = Unset, ttf = NoFile,
               in_registry = False, clock = \<lparr> day = 4, month = 11, year = 2026 \<rparr> \<rparr>"

text \<open>A document of two pages of different sizes (A4 upright, A4 landscape), no text.\<close>

definition pdf0 :: pdf where
  "pdf0 = \<lparr> layouts = [[], []],
             pages = [\<lparr> width = 595, height = 842, contents = [Original 0] \<rparr>,
                      \<lparr> width = 842, height = 595, contents = [Original 1] \<rparr>] \<rparr>"


definition date_hit :: hit where
  "date_hit = \<lparr> hit_kind = Date, hit_x0 = 0, hit_y0 = 0, hit_x1 = 10, hit_y1 = 10, hit_size = 10,
                 hit_family = asc ''TimesNewRomanPS'', hit_style = asc ''regular'',
                 hit_src = asc ''01.01.2024'', hit_k = 0.265 \<rparr>"

text \<open>A line with a year-like amount and another amount, and the hit the
  program makes of the second; a world whose \<^verbatim>\<open>NOTARY_OVERLAY_PCT\<close> is not a number;
  a line whose first glyph has no Unicode mapping, so that its text is \<^verbatim>\<open>(cid:1)\<close>
  and the line has fewer glyphs than characters.\<close>

definition two_amounts :: pystr where
  "two_amounts = [8364, 50, 48, 50, 44, 48, 48, 32, 8364, 49, 44, 48, 48]"

definition amount_hit :: hit where
  "amount_hit = \<lparr> hit_kind = Amount, hit_x0 = 8, hit_y0 = 0, hit_x1 = 13, hit_y1 = 10, hit_size = 10,
                 hit_family = asc ''TimesNewRomanPS'', hit_style = asc ''regular'',
                 hit_src = [8364, 49, 44, 48, 48], hit_k = 0.265 \<rparr>"

definition bad_world :: world where
  "bad_world = world0 \<lparr> NOTARY_OVERLAY_PCT := NotFloat \<rparr>"

definition cid_chars :: "ltchar list" where
  "cid_chars =
     \<lparr> get_text = asc ''(cid:1)'', x0 = 0, y0 = 0, x1 = 1, y1 = 10,
       fontname = asc ''ABCDEF+Times'', fsize = 10 \<rparr>
     # mono_chars [8364, 49, 44, 48, 48]"

definition cid_text :: pystr where
  "cid_text = asc ''(cid:1)'' @ [8364, 49, 44, 48, 48]"



section \<open>Lemmas on the three loops\<close>

lemma compose_pages_eq:
  "compose_pages ov wr i ps =
     wr @ map (\<lambda>n. if i + n < length ov then merge_page (ps ! n) (ov ! (i + n)) else ps ! n) [0..<length ps]"
proof (induction ps arbitrary: wr i)
  case Nil
  show ?case by simp
next
  case (Cons p ps)
  have "[0..<length (p # ps)] = 0 # map Suc [0..<length ps]"
    by (simp add: upt_conv_Cons map_Suc_upt del: upt_Suc)
  then show ?case
    by (simp add: Cons.IH comp_def del: upt_Suc)
qed

lemma foldl_draw_on:
  "foldl (draw_on reg U amt cur) c hs =
     c\<lparr> page_code := page_code c @ concat (map (draw_hit reg U amt cur) hs) \<rparr>"
  by (induction hs arbitrary: c) (simp_all add: draw_on_def)

lemma render_pages_Some:
  "i \<noteq> 0 \<Longrightarrow> page_code c = [] \<Longrightarrow>
   render_pages reg U amt cur mbp (Some c) i ps =
     Inr (Some (c\<lparr> doc_pages := doc_pages c @
        map (\<lambda>n. \<lparr> o_width = fst (pagesize c), o_height = snd (pagesize c),
                    o_ops = concat (map (draw_hit reg U amt cur) (hits_on mbp (i + n))) \<rparr>)
          [0..<length ps] \<rparr>))"
proof (induction ps arbitrary: c i)
  case Nil
  then show ?case by simp
next
  case (Cons p ps)
  have upt: "[0..<length (p # ps)] = 0 # map Suc [0..<length ps]"
    by (simp add: upt_conv_Cons map_Suc_upt del: upt_Suc)
  let ?c = "showPage (foldl (draw_on reg U amt cur) c (hits_on mbp i))"
  have pc: "page_code ?c = []"
    by (simp add: showPage_def foldl_draw_on)
  have "render_pages reg U amt cur mbp (Some c) i (p # ps) =
          render_pages reg U amt cur mbp (Some ?c) (Suc i) ps"
    using Cons.prems(1) by simp
  also have "\<dots> = Inr (Some (?c\<lparr> doc_pages := doc_pages ?c @
        map (\<lambda>n. \<lparr> o_width = fst (pagesize ?c), o_height = snd (pagesize ?c),
                    o_ops = concat (map (draw_hit reg U amt cur) (hits_on mbp (Suc i + n))) \<rparr>)
          [0..<length ps] \<rparr>))"
    by (rule Cons.IH [OF _ pc]) simp
  also have "\<dots> = Inr (Some (c\<lparr> doc_pages := doc_pages c @
        map (\<lambda>n. \<lparr> o_width = fst (pagesize c), o_height = snd (pagesize c),
                    o_ops = concat (map (draw_hit reg U amt cur) (hits_on mbp (i + n))) \<rparr>)
          [0..<length (p # ps)] \<rparr>))"
    using Cons.prems(2) unfolding upt
    by (cases c) (simp add: showPage_def foldl_draw_on comp_def)
  finally show ?case .
qed

lemma render_overlay_Cons:
  "render_overlay reg U amt cur mbp (p # ps) =
     Inr (map (\<lambda>n. \<lparr> o_width = width p, o_height = height p,
                      o_ops = concat (map (draw_hit reg U amt cur) (hits_on mbp n)) \<rparr>)
            [0..<length (p # ps)])"
proof -
  have upt: "[0..<length (p # ps)] = 0 # map Suc [0..<length ps]"
    by (simp add: upt_conv_Cons map_Suc_upt del: upt_Suc)
  let ?c = "showPage (foldl (draw_on reg U amt cur) (new_canvas (width p, height p)) (hits_on mbp 0))"
  have pc: "page_code ?c = []"
    by (simp add: showPage_def foldl_draw_on)
  show ?thesis
    unfolding render_overlay_def upt
    by (simp add: render_pages_Some [OF _ pc] bindE_def save_def comp_def del: upt_Suc)
       (simp add: showPage_def foldl_draw_on new_canvas_def)
qed



lemma median_value:
  "xs \<noteq> [] \<Longrightarrow>
   median xs = Inr (if length xs mod 2 = 1 then sort xs ! (length xs div 2)
                    else (sort xs ! (length xs div 2 - 1) + sort xs ! (length xs div 2)) / 2)"
proof -
  assume "xs \<noteq> []"
  then have "sort xs \<noteq> []"
    by (metis length_sort length_0_conv)
  then show ?thesis
    by (simp add: median_def Let_def)
qed

lemma median_nonempty: "xs \<noteq> [] \<Longrightarrow> \<exists>v. median xs = Inr v"
  using median_value by blast

lemma make_hit_error:
  assumes "make_hit kd W chars txt m = Inl e"
  shows "e = ValueError ''could not convert string to float'' \<and> NOTARY_OVERLAY_PCT W = NotFloat"
proof -
  let ?seg = "py_slice chars (fst m) (snd m)"
  from assms have ne: "?seg \<noteq> []"
    by (auto simp: make_hit_def Let_def split: if_splits)
  then obtain c cs where seg: "?seg = c # cs"
    by (cases ?seg) auto
  from ne obtain v where med: "median (map fsize ?seg) = Inr v"
    using median_nonempty [of "map fsize ?seg"] by auto
  from assms seg med show ?thesis
    by (cases "NOTARY_OVERLAY_PCT W")
       (simp_all add: make_hit_def Let_def bindE_def py_min_def py_max_def first_def overlay_pct_def)
qed

lemma make_hit_Some_nonempty:
  "make_hit kd W chars txt m = Inr (Some h) \<Longrightarrow> py_slice chars (fst m) (snd m) \<noteq> []"
  by (auto simp: make_hit_def Let_def split: if_splits)

lemma make_hit_empty:
  "py_slice chars (fst m) (snd m) = [] \<Longrightarrow> make_hit kd W chars txt m = Inr None"
  by (simp add: make_hit_def)

lemma for_each_error:
  "for_each body s xs = Inl e \<Longrightarrow> \<exists>s' x. x \<in> set xs \<and> body s' x = Inl e"
proof (induction xs arbitrary: s)
  case Nil
  then show ?case by simp
next
  case (Cons x xs)
  show ?case
  proof (cases "body s x")
    case (Inl e')
    with Cons.prems show ?thesis by auto
  next
    case (Inr s1)
    with Cons.prems have "for_each body s1 xs = Inl e" by simp
    from Cons.IH [OF this] show ?thesis by auto
  qed
qed

lemma amount_body_error: "amount_body W chars txt m = Inl e \<Longrightarrow> float_error W e"
  unfolding float_error_def
  by (auto simp: amount_body_def split: if_splits dest: make_hit_error)

lemma date_body_error: "date_body W chars txt m = Inl e \<Longrightarrow> float_error W e"
  unfolding float_error_def
  by (auto simp: date_body_def dest: make_hit_error)

lemma on_match_error: "on_match body hs m = Inl e \<Longrightarrow> body m = Inl e"
  by (auto simp: on_match_def split: sum.splits option.splits)

lemma for_pats_error:
  assumes "for_pats U body txt hs pats = Inl e"
  shows "\<exists>m. body m = Inl e"
proof -
  from assms obtain s' pat where "for_each (on_match body) s' (finditer U pat txt) = Inl e"
    unfolding for_pats_def by (blast dest: for_each_error)
  then show ?thesis
    by (blast dest: for_each_error on_match_error)
qed

lemma on_line_error: "on_line W hs line = Inl e \<Longrightarrow> float_error W e"
  by (auto simp: on_line_def Let_def bindE_def split: lt_line.splits if_splits sum.splits
           dest!: for_pats_error dest: amount_body_error date_body_error)

lemma on_box_error: "on_box W hs box = Inl e \<Longrightarrow> float_error W e"
  by (auto simp: on_box_def split: lt_box.splits dest!: for_each_error dest: on_line_error)

lemma page_hits_of_error: "page_hits_of W layout = Inl e \<Longrightarrow> float_error W e"
  by (auto simp: page_hits_of_def dest!: for_each_error dest: on_box_error)

lemma extract_hits_error: "extract_hits W mbp n ls = Inl e \<Longrightarrow> float_error W e"
  by (induction ls arbitrary: mbp n) (auto split: sum.splits if_splits dest: page_hits_of_error)

lemma extract_hits_ok:
  "NOTARY_OVERLAY_PCT W \<noteq> NotFloat \<Longrightarrow> \<exists>mbp'. extract_hits W mbp n ls = Inr mbp'"
  by (cases "extract_hits W mbp n ls") (auto dest: extract_hits_error simp: float_error_def)

lemma merge_page_dims: "width (merge_page p ov) = width p \<and> height (merge_page p ov) = height p"
  by (simp add: merge_page_def)

lemma draw_hit_eq:
  "draw_hit reg U amt cur h =
     [SetFillColor White, SetStrokeColor White,
      Rect (hit_x0 h - pad h) (hit_y0 h - pad h)
           ((hit_x1 h + pad h) - (hit_x0 h - pad h)) ((hit_y1 h + pad h) - (hit_y0 h - pad h)) 1 0,
      SetFillColor Black, SetStrokeColor Black,
      DrawText (hit_x0 h) (hit_y0 h + (hit_y1 h - hit_y0 h) * hit_k h)
        (ensure_font reg (hit_family h) (hit_style h)) (hit_size h) (new_text U amt cur h)]"
  by (simp add: draw_hit_def Let_def algebra_simps)

lemma render_overlay_nth:
  assumes "render_overlay reg U amt cur mbp ps = Inr ov" and "i < length ps"
  shows "length ov = length ps
       \<and> ov ! i = \<lparr> o_width = width (hd ps), o_height = height (hd ps),
                    o_ops = concat (map (draw_hit reg U amt cur) (hits_on mbp i)) \<rparr>"
proof -
  from assms(2) obtain p ps' where ps: "ps = p # ps'"
    by (cases ps) auto
  from assms(1) have ov: "ov = map (\<lambda>n. \<lparr> o_width = width p, o_height = height p,
                      o_ops = concat (map (draw_hit reg U amt cur) (hits_on mbp n)) \<rparr>)
            [0..<length (p # ps')]"
    unfolding ps render_overlay_Cons by simp
  show ?thesis
    using assms(2) unfolding ov ps by (simp del: upt_Suc)
qed


lemma in_concat_block:
  "h \<in> set hs \<Longrightarrow> \<exists>before after. concat (map f hs) = before @ f h @ after"
  by (metis concat.simps(2) concat_append list.simps(9) map_append split_list)


lemma make_hit_Some:
  "make_hit kd W chars txt m = Inr (Some h) \<Longrightarrow>
     hit_kind h = kd \<and> hit_src h = py_slice txt (fst m) (snd m)
   \<and> hit_family h = fst (family_and_style (fontname (hd (py_slice chars (fst m) (snd m)))))
   \<and> hit_style h = snd (family_and_style (fontname (hd (py_slice chars (fst m) (snd m)))))"
  by (auto simp: make_hit_def Let_def bindE_def first_def
           split: if_splits sum.splits list.splits)

lemma for_each_on_match_inv:
  "for_each (on_match body) acc ms = Inr hs \<Longrightarrow>
     \<exists>new. hs = acc @ new \<and> (\<forall>h\<in>set new. \<exists>m\<in>set ms. body m = Inr (Some h))"
proof (induction ms arbitrary: acc)
  case Nil
  then show ?case by simp
next
  case (Cons m ms)
  from Cons.prems obtain acc1 where
    step: "on_match body acc m = Inr acc1" and rest: "for_each (on_match body) acc1 ms = Inr hs"
    by (auto split: sum.splits)
  from Cons.IH [OF rest] obtain new where
    new: "hs = acc1 @ new" "\<forall>h\<in>set new. \<exists>m\<in>set ms. body m = Inr (Some h)"
    by blast
  from step consider "acc1 = acc" | h where "body m = Inr (Some h)" "acc1 = acc @ [h]"
    by (auto simp: on_match_def split: sum.splits option.splits)
  then show ?case
  proof cases
    case 1
    with new show ?thesis by auto
  next
    case 2
    with new have "hs = acc @ (h # new)" by simp
    moreover from 2 new have "\<forall>h'\<in>set (h # new). \<exists>m'\<in>set (m # ms). body m' = Inr (Some h')"
      by auto
    ultimately show ?thesis by blast
  qed
qed

lemma for_pats_inv:
  "for_pats U body txt acc pats = Inr hs \<Longrightarrow>
     \<exists>new. hs = acc @ new
        \<and> (\<forall>h\<in>set new. \<exists>pat\<in>set pats. \<exists>m\<in>set (finditer U pat txt). body m = Inr (Some h))"
  unfolding for_pats_def
proof (induction pats arbitrary: acc)
  case Nil
  then show ?case by simp
next
  case (Cons pat pats)
  from Cons.prems obtain acc1 where
    step: "for_each (on_match body) acc (finditer U pat txt) = Inr acc1"
    and rest: "for_each (\<lambda>hits pat. for_each (on_match body) hits (finditer U pat txt)) acc1 pats = Inr hs"
    by (auto split: sum.splits)
  from for_each_on_match_inv [OF step] obtain new1 where
    n1: "acc1 = acc @ new1" "\<forall>h\<in>set new1. \<exists>m\<in>set (finditer U pat txt). body m = Inr (Some h)"
    by blast
  from Cons.IH [OF rest] obtain new2 where
    n2: "hs = acc1 @ new2"
      "\<forall>h\<in>set new2. \<exists>pat\<in>set pats. \<exists>m\<in>set (finditer U pat txt). body m = Inr (Some h)"
    by blast
  from n1 n2 have "hs = acc @ (new1 @ new2)" by simp
  moreover from n1 n2 have
    "\<forall>h\<in>set (new1 @ new2). \<exists>p\<in>set (pat # pats). \<exists>m\<in>set (finditer U p txt). body m = Inr (Some h)"
    by auto
  ultimately show ?case by blast
qed

lemma amount_loop_filter:
  "for_each (on_match (amount_body W chars txt)) acc ms =
   for_each (on_match (make_hit Amount W chars txt)) acc
     (filter (\<lambda>m. \<not> suppressed (py_slice txt (fst m) (snd m))) ms)"
  by (induction ms arbitrary: acc)
     (auto simp: on_match_def amount_body_def split: sum.splits option.splits)

lemma line_chars_LTChar: "line_chars (map LTChar cs) = cs"
  by (induction cs) (simp_all add: line_chars_def)

lemma mono_chars_text: "concat (map get_text (mono_chars s)) = s"
proof -
  have "concat (map get_text (mono_chars s)) = concat (map (\<lambda>i. [s ! i]) [0..<length s])"
    by (simp add: mono_chars_def comp_def)
  also have "\<dots> = map ((!) s) [0..<length s]"
    by (induction "[0..<length s]" arbitrary: s rule: rev_induct) (simp_all add: concat_map_singleton)
  also have "\<dots> = s"
    by (rule map_nth)
  finally show ?thesis .
qed

lemma two_amounts_left: "finditer ascii_tables money_left two_amounts = [(0, 7), (8, 13)]"
  by code_simp

lemma two_amounts_right: "finditer ascii_tables money_right two_amounts = [(1, 9)]"
  by code_simp

lemma two_amounts_suppressed:
  "suppressed (py_slice two_amounts 0 7) \<and> suppressed (py_slice two_amounts 1 9)
   \<and> \<not> suppressed (py_slice two_amounts 8 13)"
  by code_simp

lemma two_amounts_hit:
  "make_hit Amount world0 (mono_chars two_amounts) two_amounts (8, 13) = Inr (Some amount_hit)"
  by (simp add: make_hit_def mono_chars_def two_amounts_def py_slice_def upt_rec py_min_def py_max_def
        median_def first_def overlay_pct_def world0_def bindE_def amount_hit_def family_and_style_def
        sort_key_def insort_key.simps)

lemma two_amounts_bad_world:
  "make_hit Amount bad_world (mono_chars two_amounts) two_amounts (8, 13) =
     Inl (ValueError ''could not convert string to float'')"
  by (simp add: make_hit_def mono_chars_def two_amounts_def py_slice_def upt_rec py_min_def py_max_def
        median_def first_def overlay_pct_def world0_def bad_world_def bindE_def
        sort_key_def insort_key.simps)

lemma two_amounts_loop:
  "for_pats ascii_tables (amount_body world0 (mono_chars two_amounts) two_amounts)
       two_amounts [] money_pats = Inr [amount_hit]"
  using two_amounts_suppressed
  by (simp add: for_pats_def money_pats_def two_amounts_left two_amounts_right on_match_def
        amount_body_def two_amounts_hit)

lemma cid_text_eq: "concat (map get_text cid_chars) = cid_text"
  by (simp add: cid_chars_def cid_text_def mono_chars_text)

lemma cid_left: "finditer ascii_tables money_left cid_text = [(7, 12)]"
  by code_simp

lemma cid_slice: "py_slice cid_chars 7 12 = []"
  by (simp add: cid_chars_def mono_chars_def py_slice_def)

lemma two_amounts_bad_page:
  "extract_hits bad_world Map.empty 0 [[LTTextContainer [mono_line two_amounts]]] =
     Inl (ValueError ''could not convert string to float'')"
proof -
  have ne: "mono_chars two_amounts \<noteq> []"
    by (simp add: mono_chars_def two_amounts_def)
  have tb: "tables bad_world = ascii_tables"
    by (simp add: bad_world_def world0_def)
  have "on_line bad_world [] (mono_line two_amounts) = Inl (ValueError ''could not convert string to float'')"
    using two_amounts_suppressed
    by (simp add: on_line_def mono_line_def line_chars_LTChar mono_chars_text ne tb bindE_def
          for_pats_def money_pats_def two_amounts_left on_match_def amount_body_def two_amounts_bad_world)
  then show ?thesis
    by (simp add: page_hits_of_def on_box_def)
qed









section \<open>Page count and page sizes\<close>

text \<open>
  C1. For an input with at least one page (a loadable font file and a well-formed
  \<^verbatim>\<open>NOTARY_OVERLAY_PCT\<close>, the two things in the environment that can make the call
  raise), the function returns a document with as many pages as the input; page \<open>i\<close>
  of the output has the width and height of page \<open>i\<close> of the input and begins with
  its content, so the pages are in the original order.
\<close>

theorem output_pages_match_input:
  assumes "pages base_pdf \<noteq> []"
    and "ttf W \<noteq> BrokenFont"
    and "NOTARY_OVERLAY_PCT W \<noteq> NotFloat"
  shows "\<exists>out. notary_replace_amount_pdf_purepy W base_pdf new_amount_float = Inr out
           \<and> length out = length (pages base_pdf)
           \<and> (\<forall>i < length out.
                 width (out ! i) = width (pages base_pdf ! i)
               \<and> height (out ! i) = height (pages base_pdf ! i)
               \<and> take (length (contents (pages base_pdf ! i))) (contents (out ! i))
                   = contents (pages base_pdf ! i))"
proof -
  from assms(2) obtain reg where reg: "register_font W = Inr reg"
    by (cases "ttf W") (auto simp: register_font_def)
  from assms(3) obtain mbp where mbp: "extract_hits W Map.empty 0 (layouts base_pdf) = Inr mbp"
    using extract_hits_ok by blast
  from assms(1) obtain p ps where ps: "pages base_pdf = p # ps"
    by (cases "pages base_pdf") auto
  obtain ov where ov: "render_overlay reg (tables W) new_amount_float (now_nl_date (clock W)) mbp (pages base_pdf) = Inr ov"
    unfolding ps using render_overlay_Cons by blast
  let ?out = "compose_pages ov [] 0 (pages base_pdf)"
  have res: "notary_replace_amount_pdf_purepy W base_pdf new_amount_float = Inr ?out"
    by (simp add: notary_replace_amount_pdf_purepy_def bindE_def reg mbp ov)
  have len: "length ?out = length (pages base_pdf)"
    by (simp add: compose_pages_eq)
  have nth: "width (?out ! i) = width (pages base_pdf ! i)
      \<and> height (?out ! i) = height (pages base_pdf ! i)
      \<and> take (length (contents (pages base_pdf ! i))) (contents (?out ! i)) = contents (pages base_pdf ! i)"
    if "i < length (pages base_pdf)" for i
    using that by (simp add: compose_pages_eq merge_page_def)
  from res len nth show ?thesis by simp
qed

theorem output_pages_match_input_witness:
  "pages pdf0 \<noteq> [] \<and> ttf world0 \<noteq> BrokenFont \<and> NOTARY_OVERLAY_PCT world0 \<noteq> NotFloat
   \<and> (\<exists>out. notary_replace_amount_pdf_purepy world0 pdf0 7500.5 = Inr out
         \<and> length out = length (pages pdf0)
         \<and> (\<forall>i < length out.
               width (out ! i) = width (pages pdf0 ! i)
             \<and> height (out ! i) = height (pages pdf0 ! i)
             \<and> take (length (contents (pages pdf0 ! i))) (contents (out ! i))
                 = contents (pages pdf0 ! i)))"
proof -
  have h1: "pages pdf0 \<noteq> []"
    by (simp add: pdf0_def)
  have h2: "ttf world0 \<noteq> BrokenFont"
    by (simp add: world0_def)
  have h3: "NOTARY_OVERLAY_PCT world0 \<noteq> NotFloat"
    by (simp add: world0_def)
  show ?thesis
    using h1 h2 h3 output_pages_match_input [OF h1 h2 h3, of "7500.5"] by blast
qed

section \<open>The blanking rectangle\<close>

text \<open>
  C6. For every hit \<open>h\<close> of page \<open>i\<close>, the overlay of that page contains, in this
  order, the fill and stroke colour set to white, a filled and unstroked rectangle with
  lower left corner \<open>(x0 - pad, y0 - pad)\<close> that extends to \<open>(x1 + pad, y1 + pad)\<close>,
  where \<open>pad = max 1.2 (0.18 * size)\<close>, then the colour set to black and the
  replacement text. The arithmetic is that of the real numbers.
\<close>

theorem blanking_rectangle:
  assumes "render_overlay reg U amt cur mbp ps = Inr ov"
    and "i < length ps"
    and "h \<in> set (hits_on mbp i)"
  shows "\<exists>before after.
           o_ops (ov ! i) =
             before @
             [SetFillColor White, SetStrokeColor White,
              Rect (hit_x0 h - max 1.2 (0.18 * hit_size h))
                   (hit_y0 h - max 1.2 (0.18 * hit_size h))
                   ((hit_x1 h + max 1.2 (0.18 * hit_size h)) - (hit_x0 h - max 1.2 (0.18 * hit_size h)))
                   ((hit_y1 h + max 1.2 (0.18 * hit_size h)) - (hit_y0 h - max 1.2 (0.18 * hit_size h)))
                   1 0,
              SetFillColor Black, SetStrokeColor Black,
              DrawText (hit_x0 h) (hit_y0 h + (hit_y1 h - hit_y0 h) * hit_k h)
                (ensure_font reg (hit_family h) (hit_style h)) (hit_size h) (new_text U amt cur h)]
             @ after"
proof -
  from render_overlay_nth [OF assms(1,2)]
  have ops: "o_ops (ov ! i) = concat (map (draw_hit reg U amt cur) (hits_on mbp i))"
    by simp
  from in_concat_block [OF assms(3), of "draw_hit reg U amt cur"]
  obtain before after where
    "concat (map (draw_hit reg U amt cur) (hits_on mbp i)) = before @ draw_hit reg U amt cur h @ after"
    by blast
  with ops have "o_ops (ov ! i) = before @ draw_hit reg U amt cur h @ after"
    by simp
  then show ?thesis
    unfolding draw_hit_eq pad_def by blast
qed


theorem blanking_rectangle_witness:
  "\<exists>before after.
     o_ops ([\<lparr> o_width = 595, o_height = 842,
               o_ops = draw_hit False ascii_tables 7500.5 (asc ''04-11-2026'') date_hit \<rparr>] ! 0) =
       before @
       [SetFillColor White, SetStrokeColor White,
        Rect (- 1.8) (- 1.8) 13.6 13.6 1 0,
        SetFillColor Black, SetStrokeColor Black,
        DrawText 0 2.65 (asc ''Times-Roman'') 10 (asc ''04-11-2026'')]
       @ after"
proof -
  let ?mbp = "[0 \<mapsto> [date_hit]]"
  let ?ps = "[\<lparr> width = 595, height = 842, contents = [Original 0] \<rparr>]"
  let ?ov = "[\<lparr> o_width = 595, o_height = 842,
                o_ops = draw_hit False ascii_tables 7500.5 (asc ''04-11-2026'') date_hit \<rparr>]"
  have h1: "render_overlay False ascii_tables 7500.5 (asc ''04-11-2026'') ?mbp ?ps = Inr ?ov"
    by (simp add: render_overlay_Cons hits_on_def)
  have h2: "0 < length ?ps"
    by simp
  have h3: "date_hit \<in> set (hits_on ?mbp 0)"
    by (simp add: hits_on_def)
  let ?h = date_hit
  let ?block = "[SetFillColor White, SetStrokeColor White,
              Rect (hit_x0 ?h - max 1.2 (0.18 * hit_size ?h))
                   (hit_y0 ?h - max 1.2 (0.18 * hit_size ?h))
                   ((hit_x1 ?h + max 1.2 (0.18 * hit_size ?h)) - (hit_x0 ?h - max 1.2 (0.18 * hit_size ?h)))
                   ((hit_y1 ?h + max 1.2 (0.18 * hit_size ?h)) - (hit_y0 ?h - max 1.2 (0.18 * hit_size ?h)))
                   1 0,
              SetFillColor Black, SetStrokeColor Black,
              DrawText (hit_x0 ?h) (hit_y0 ?h + (hit_y1 ?h - hit_y0 ?h) * hit_k ?h)
                (ensure_font False (hit_family ?h) (hit_style ?h)) (hit_size ?h)
                (new_text ascii_tables 7500.5 (asc ''04-11-2026'') ?h)]"
  from blanking_rectangle [OF h1 h2 h3]
  obtain before after where eq: "o_ops (?ov ! 0) = before @ ?block @ after"
    by blast
  have blk: "?block =
       [SetFillColor White, SetStrokeColor White,
        Rect (- 1.8) (- 1.8) 13.6 13.6 1 0,
        SetFillColor Black, SetStrokeColor Black,
        DrawText 0 2.65 (asc ''Times-Roman'') 10 (asc ''04-11-2026'')]"
    by (simp add: date_hit_def new_text_def ensure_font_def)
  show ?thesis
    by (intro exI [of _ before] exI [of _ after]) (simp only: eq blk)
qed

section \<open>Compositing and the page counts\<close>



section \<open>The size of the drawing surface\<close>

text \<open>
  C9 evaluated on \<open>pdf0\<close>, whose second page is 842 by 595: the canvas is created once,
  at \<open>i = 0\<close>, with the size of the first page, and \<^verbatim>\<open>showPage\<close> keeps that size, so
  the overlay page drawn for the second page is 595 by 842.
\<close>

theorem overlay_surface_of_second_page:
  "render_overlay False ascii_tables 7500.5 (asc ''04-11-2026'') Map.empty (pages pdf0) =
     Inr [\<lparr> o_width = 595, o_height = 842, o_ops = [] \<rparr>,
          \<lparr> o_width = 595, o_height = 842, o_ops = [] \<rparr>]
   \<and> width (pages pdf0 ! 1) = 842 \<and> height (pages pdf0 ! 1) = 595"
  by (simp add: pdf0_def render_overlay_Cons hits_on_def)

section \<open>The year filter of the amount loop\<close>

text \<open>
  C2. For every line, the amount loop over the two money patterns creates hits from
  exactly those matches whose text is not suppressed, where a text is suppressed when
  it contains \<^verbatim>\<open>202\<close> and is shorter than 12 characters: a suppressed match gives no
  hit, a match that is not suppressed goes on to hit creation as if the filter were
  not there, and every hit the loop appends is an amount hit whose source text is not
  suppressed.
\<close>

theorem year_filter:
  "for_pats U (amount_body W chars txt) txt acc money_pats =
     for_each (\<lambda>hits pat. for_each (on_match (make_hit Amount W chars txt)) hits
                 (filter (\<lambda>m. \<not> suppressed (py_slice txt (fst m) (snd m))) (finditer U pat txt)))
       acc money_pats
   \<and> (\<forall>m. suppressed (py_slice txt (fst m) (snd m)) \<longrightarrow> amount_body W chars txt m = Inr None)
   \<and> (\<forall>m. \<not> suppressed (py_slice txt (fst m) (snd m)) \<longrightarrow>
          amount_body W chars txt m = make_hit Amount W chars txt m)
   \<and> (\<forall>g. suppressed g = (contains (asc ''202'') g \<and> length g < 12))
   \<and> (\<forall>hs. for_pats U (amount_body W chars txt) txt acc money_pats = Inr hs \<longrightarrow>
          (\<exists>new. hs = acc @ new \<and> (\<forall>h\<in>set new. hit_kind h = Amount \<and> \<not> suppressed (hit_src h))))"
proof -
  have a: "for_pats U (amount_body W chars txt) txt acc money_pats =
     for_each (\<lambda>hits pat. for_each (on_match (make_hit Amount W chars txt)) hits
                 (filter (\<lambda>m. \<not> suppressed (py_slice txt (fst m) (snd m))) (finditer U pat txt)))
       acc money_pats"
    unfolding for_pats_def amount_loop_filter ..
  have b: "suppressed (py_slice txt (fst m) (snd m)) \<Longrightarrow> amount_body W chars txt m = Inr None" for m
    by (simp add: amount_body_def)
  have c: "\<not> suppressed (py_slice txt (fst m) (snd m)) \<Longrightarrow>
          amount_body W chars txt m = make_hit Amount W chars txt m" for m
    by (simp add: amount_body_def)
  have s: "suppressed g = (contains (asc ''202'') g \<and> length g < 12)" for g :: pystr
    by (simp add: suppressed_def)
  have d: "\<exists>new. hs = acc @ new \<and> (\<forall>h\<in>set new. hit_kind h = Amount \<and> \<not> suppressed (hit_src h))"
    if "for_pats U (amount_body W chars txt) txt acc money_pats = Inr hs" for hs
  proof -
    from for_pats_inv [OF that] obtain new where
      new: "hs = acc @ new"
        "\<forall>h\<in>set new. \<exists>pat\<in>set money_pats. \<exists>m\<in>set (finditer U pat txt).
            amount_body W chars txt m = Inr (Some h)"
      by blast
    have "hit_kind h = Amount \<and> \<not> suppressed (hit_src h)" if "h \<in> set new" for h
    proof -
      from new(2) that obtain m where m: "amount_body W chars txt m = Inr (Some h)"
        by blast
      then have ns: "\<not> suppressed (py_slice txt (fst m) (snd m))"
        by (auto simp: amount_body_def split: if_splits)
      with m have "make_hit Amount W chars txt m = Inr (Some h)"
        by (simp add: amount_body_def)
      from make_hit_Some [OF this] ns show ?thesis by simp
    qed
    with new(1) show ?thesis by blast
  qed
  from a b c s d show ?thesis by blast
qed

theorem year_filter_witness:
  "finditer ascii_tables money_left two_amounts = [(0, 7), (8, 13)]
   \<and> finditer ascii_tables money_right two_amounts = [(1, 9)]
   \<and> suppressed (py_slice two_amounts 0 7)
   \<and> amount_body world0 (mono_chars two_amounts) two_amounts (0, 7) = Inr None
   \<and> suppressed (py_slice two_amounts 1 9)
   \<and> amount_body world0 (mono_chars two_amounts) two_amounts (1, 9) = Inr None
   \<and> \<not> suppressed (py_slice two_amounts 8 13)
   \<and> amount_body world0 (mono_chars two_amounts) two_amounts (8, 13) = Inr (Some amount_hit)
   \<and> for_pats ascii_tables (amount_body world0 (mono_chars two_amounts) two_amounts)
       two_amounts [] money_pats = Inr [amount_hit]
   \<and> hit_kind amount_hit = Amount \<and> \<not> suppressed (hit_src amount_hit)"
proof -
  note yf = year_filter [of ascii_tables world0 "mono_chars two_amounts" two_amounts "[]"]
  from yf two_amounts_suppressed
  have b: "amount_body world0 (mono_chars two_amounts) two_amounts (0, 7) = Inr None"
    and b': "amount_body world0 (mono_chars two_amounts) two_amounts (1, 9) = Inr None"
    and c: "amount_body world0 (mono_chars two_amounts) two_amounts (8, 13) =
            make_hit Amount world0 (mono_chars two_amounts) two_amounts (8, 13)"
    by auto
  from yf two_amounts_loop
  have "\<exists>new. [amount_hit] = [] @ new
          \<and> (\<forall>h\<in>set new. hit_kind h = Amount \<and> \<not> suppressed (hit_src h))"
    by blast
  then have d: "hit_kind amount_hit = Amount \<and> \<not> suppressed (hit_src amount_hit)"
    by auto
  from b b' c d two_amounts_hit two_amounts_left two_amounts_right two_amounts_suppressed
    two_amounts_loop
  show ?thesis by simp
qed

section \<open>Hits and their glyphs\<close>

text \<open>
  C10. A match (of an amount or a date pattern) whose span cuts an empty slice out of
  the glyphs of the line creates no hit; a hit that is created has a non-empty slice;
  on a non-empty slice the minima and maxima of the box and the median of the font
  sizes have a value; and the only exception that a match, or the whole extraction
  loop, can raise is the \<^verbatim>\<open>ValueError\<close> of a malformed \<^verbatim>\<open>NOTARY_OVERLAY_PCT\<close>, never
  one of \<^verbatim>\<open>min\<close>, \<^verbatim>\<open>max\<close>, \<^verbatim>\<open>median\<close> or \<^verbatim>\<open>seg[0]\<close>.
\<close>

theorem hit_covers_a_glyph:
  "(py_slice chars (fst m) (snd m) = [] \<longrightarrow>
      amount_body W chars txt m = Inr None \<and> date_body W chars txt m = Inr None)
   \<and> (\<forall>h. amount_body W chars txt m = Inr (Some h) \<or> date_body W chars txt m = Inr (Some h) \<longrightarrow>
          py_slice chars (fst m) (snd m) \<noteq> [])
   \<and> (py_slice chars (fst m) (snd m) \<noteq> [] \<longrightarrow>
        (\<exists>a b c d s.
            py_min (map x0 (py_slice chars (fst m) (snd m))) = Inr a
          \<and> py_max (map x1 (py_slice chars (fst m) (snd m))) = Inr b
          \<and> py_min (map y0 (py_slice chars (fst m) (snd m))) = Inr c
          \<and> py_max (map y1 (py_slice chars (fst m) (snd m))) = Inr d
          \<and> median (map fsize (py_slice chars (fst m) (snd m))) = Inr s))
   \<and> (\<forall>e. amount_body W chars txt m = Inl e \<or> date_body W chars txt m = Inl e
           \<or> extract_hits W mbp n ls = Inl e \<longrightarrow>
          e = ValueError ''could not convert string to float'' \<and> NOTARY_OVERLAY_PCT W = NotFloat)"
proof -
  let ?seg = "py_slice chars (fst m) (snd m)"
  have a: "amount_body W chars txt m = Inr None \<and> date_body W chars txt m = Inr None"
    if "?seg = []"
    using that by (simp add: amount_body_def date_body_def make_hit_empty)
  have b: "?seg \<noteq> []"
    if "amount_body W chars txt m = Inr (Some h) \<or> date_body W chars txt m = Inr (Some h)" for h
    using that
    by (auto simp: amount_body_def date_body_def split: if_splits dest: make_hit_Some_nonempty)
  have c: "\<exists>a b c d s.
            py_min (map x0 ?seg) = Inr a \<and> py_max (map x1 ?seg) = Inr b
          \<and> py_min (map y0 ?seg) = Inr c \<and> py_max (map y1 ?seg) = Inr d
          \<and> median (map fsize ?seg) = Inr s"
    if "?seg \<noteq> []"
  proof -
    from that obtain g gs where seg: "?seg = g # gs"
      by (cases ?seg) auto
    from that obtain s where "median (map fsize ?seg) = Inr s"
      using median_nonempty [of "map fsize ?seg"] by auto
    then show ?thesis
      unfolding seg by (simp add: py_min_def py_max_def)
  qed
  have d: "e = ValueError ''could not convert string to float'' \<and> NOTARY_OVERLAY_PCT W = NotFloat"
    if "amount_body W chars txt m = Inl e \<or> date_body W chars txt m = Inl e
           \<or> extract_hits W mbp n ls = Inl e" for e
    using that amount_body_error date_body_error extract_hits_error
    unfolding float_error_def by blast
  from a b c d show ?thesis by blast
qed

theorem hit_covers_a_glyph_witness:
  "finditer ascii_tables money_left (concat (map get_text cid_chars)) = [(7, 12)]
   \<and> py_slice cid_chars 7 12 = []
   \<and> amount_body world0 cid_chars (concat (map get_text cid_chars)) (7, 12) = Inr None
   \<and> date_body world0 cid_chars (concat (map get_text cid_chars)) (7, 12) = Inr None
   \<and> amount_body world0 (mono_chars two_amounts) two_amounts (8, 13) = Inr (Some amount_hit)
   \<and> py_slice (mono_chars two_amounts) 8 13 \<noteq> []
   \<and> (\<exists>s. median (map fsize (py_slice (mono_chars two_amounts) 8 13)) = Inr s)
   \<and> extract_hits bad_world Map.empty 0 [[LTTextContainer [mono_line two_amounts]]] =
       Inl (ValueError ''could not convert string to float'')
   \<and> NOTARY_OVERLAY_PCT bad_world = NotFloat"
proof -
  from hit_covers_a_glyph [of cid_chars "(7, 12)" world0 "concat (map get_text cid_chars)"] cid_slice
  have a: "amount_body world0 cid_chars (concat (map get_text cid_chars)) (7, 12) = Inr None"
    and a': "date_body world0 cid_chars (concat (map get_text cid_chars)) (7, 12) = Inr None"
    by auto
  have h: "amount_body world0 (mono_chars two_amounts) two_amounts (8, 13) = Inr (Some amount_hit)"
    using two_amounts_suppressed two_amounts_hit by (simp add: amount_body_def)
  from hit_covers_a_glyph [of "mono_chars two_amounts" "(8, 13)" world0 two_amounts] h
  have b: "py_slice (mono_chars two_amounts) 8 13 \<noteq> []"
    by auto
  with hit_covers_a_glyph [of "mono_chars two_amounts" "(8, 13)" world0 two_amounts]
  have c: "\<exists>s. median (map fsize (py_slice (mono_chars two_amounts) 8 13)) = Inr s"
    by auto
  from hit_covers_a_glyph [of "[]" "(0, 0)" bad_world "[]" Map.empty 0 "[[LTTextContainer [mono_line two_amounts]]]"]
    two_amounts_bad_page
  have d: "NOTARY_OVERLAY_PCT bad_world = NotFloat"
    by blast
  from a a' h b c d cid_left cid_text_eq cid_slice two_amounts_bad_page show ?thesis
    by simp
qed

end
